theory Spec2Isabelle
  imports Main "HOL-Library.Multiset"
begin

section \<open>Session store (src/aws/sessionStore.ts)\<close>

text \<open>
  A connected SSO session. The optional \<open>expiresAt\<close> date is kept as the integer
  that \<open>Date.getTime()\<close> reads (milliseconds since the epoch); \<open>None\<close> is an
  absent field.
\<close>

record ConnectedSsoSession =
  ssoSession :: string
  ssoRegion :: string
  accessToken :: string
  expiresAt :: "int option"

text \<open>The module-level \<open>Map\<close> from session id to session.\<close>

type_synonym session_store = "string \<rightharpoonup> ConnectedSsoSession"

definition setSsoSession ::
  "string \<Rightarrow> ConnectedSsoSession \<Rightarrow> session_store \<Rightarrow> session_store" where
  "setSsoSession sessionId session store = store(sessionId \<mapsto> session)"

text \<open>
  \<open>getSsoSession\<close> reads the clock once (\<open>Date.now()\<close>, the argument \<open>now\<close>) and
  returns the session or \<open>None\<close> for \<open>undefined\<close>, together with the store it leaves.
\<close>

definition getSsoSession ::
  "int \<Rightarrow> string \<Rightarrow> session_store \<Rightarrow> ConnectedSsoSession option \<times> session_store" where
  "getSsoSession now sessionId store =
     (case store sessionId of
        None \<Rightarrow> (None, store)
      | Some v \<Rightarrow>
          (case expiresAt v of
             Some t \<Rightarrow>
               if t \<le> now then (None, store(sessionId := None)) else (Some v, store)
           | None \<Rightarrow> (Some v, store)))"

text \<open>
  The two operations a caller can apply to the store, to speak about what happens
  after an eviction: a read at some clock value, or a write.
\<close>

datatype store_op = GetOp string int | PutOp string ConnectedSsoSession

fun run_op :: "store_op \<Rightarrow> session_store \<Rightarrow> session_store" where
  "run_op (GetOp sessionId now) store = snd (getSsoSession now sessionId store)"
| "run_op (PutOp sessionId session) store = setSsoSession sessionId session store"

fun run_ops :: "store_op list \<Rightarrow> session_store \<Rightarrow> session_store" where
  "run_ops [] store = store"
| "run_ops (x # xs) store = run_ops xs (run_op x store)"

fun puts_to :: "string \<Rightarrow> store_op \<Rightarrow> bool" where
  "puts_to sessionId (GetOp k now) = False"
| "puts_to sessionId (PutOp k session) = (k = sessionId)"


section \<open>Thrown values\<close>

text \<open>
  A thrown value as the \<open>catch\<close> blocks read it: its \<open>name\<close> and \<open>error\<close>
  properties (either may be absent) and its \<open>message\<close>. A rejected provider call and
  a \<open>throw new Error(...)\<close> of the code are both values of this type, returned as \<open>Inl\<close>.
\<close>

record js_error =
  err_name :: "string option"
  err_error :: "string option"
  err_message :: string

definition Error :: "string \<Rightarrow> js_error" where
  "Error msg = \<lparr>err_name = Some ''Error'', err_error = None, err_message = msg\<rparr>"

text \<open>JavaScript truthiness of an optional string: absent and \<open>""\<close> are falsy.\<close>

fun truthy :: "string option \<Rightarrow> bool" where
  "truthy None = False"
| "truthy (Some s) = (s \<noteq> [])"

section \<open>Queue service (src/aws/sqsService.ts): deduplicated receive\<close>

record Message =
  MessageId :: "string option"
  ReceiptHandle :: "string option"
  Body :: "string option"

record PreviewOptions =
  maxMessages :: int
  waitTimeSeconds :: "int option"
  visibilityTimeout :: "int option"

record SQSClient =
  client_region :: string
  accessKeyId :: string
  secretAccessKey :: string
  sessionToken :: "string option"

record ReceiveMessageRequest =
  QueueUrl :: string
  MaxNumberOfMessages :: int
  WaitTimeSeconds :: int
  VisibilityTimeout :: "int option"
  AttributeNames :: "string list"
  MessageAttributeNames :: "string list"

text \<open>
  The provider behind \<open>client.send(new ReceiveMessageCommand(...))\<close>: a state machine
  over an arbitrary world \<open>'w\<close>. A call either rejects (\<open>Inl\<close>) or resolves with the
  \<open>Messages\<close> field of the response, \<open>None\<close> when the field is absent.
\<close>

type_synonym 'w receive_api =
  "SQSClient \<Rightarrow> ReceiveMessageRequest \<Rightarrow> 'w \<Rightarrow> (js_error + Message list option) \<times> 'w"

definition clampMaxMessages :: "int \<Rightarrow> int" where
  "clampMaxMessages m = max 1 (min m 5000)"

text \<open>The deduplication key of a message: \<open>msg.MessageId ?? ""\<close>.\<close>

definition dedupKey :: "Message \<Rightarrow> string" where
  "dedupKey msg = (case MessageId msg of None \<Rightarrow> [] | Some i \<Rightarrow> i)"

text \<open>
  The inner \<open>for (const msg of batch)\<close> loop, on the triple
  \<open>(seen, messages, newInBatch)\<close> it updates.
\<close>

fun dedupBatch ::
  "Message list \<Rightarrow> string set \<times> Message list \<times> nat \<Rightarrow> string set \<times> Message list \<times> nat" where
  "dedupBatch [] st = st"
| "dedupBatch (msg # batch) (seen, messages, newInBatch) =
     (if dedupKey msg \<notin> seen
      then dedupBatch batch (insert (dedupKey msg) seen, messages @ [msg], newInBatch + 1)
      else dedupBatch batch (seen, messages, newInBatch))"

lemma dedupBatch_length:
  "dedupBatch batch (seen, messages, n) = (seen', messages', n') \<Longrightarrow>
     length messages' + n = length messages + n'"
proof (induction batch arbitrary: seen messages n)
  case Nil
  then show ?case by simp
next
  case (Cons msg batch)
  show ?case
  proof (cases "dedupKey msg \<in> seen")
    case True
    with Cons show ?thesis by simp
  next
    case False
    with Cons.prems
    have "dedupBatch batch (insert (dedupKey msg) seen, messages @ [msg], n + 1) =
            (seen', messages', n')"
      by simp
    from Cons.IH [OF this] show ?thesis by simp
  qed
qed

text \<open>The \<open>ReceiveMessageCommand\<close> input built in each iteration.\<close>

definition receiveRequest :: "string \<Rightarrow> PreviewOptions \<Rightarrow> int \<Rightarrow> ReceiveMessageRequest" where
  "receiveRequest queueUrl options batchSize =
     \<lparr>QueueUrl = queueUrl,
      MaxNumberOfMessages = batchSize,
      WaitTimeSeconds = (case waitTimeSeconds options of None \<Rightarrow> 1 | Some t \<Rightarrow> t),
      VisibilityTimeout = visibilityTimeout options,
      AttributeNames = [''All''],
      MessageAttributeNames = [''All'']\<rparr>"

text \<open>
  The \<open>while (messages.length < maxMessages)\<close> loop. Besides the messages it
  returns the requests it has sent, in order (a ghost list: the code does not keep it),
  and the provider's world. A rejected \<open>send\<close> rejects the whole call.
\<close>

function receiveLoop ::
  "'w receive_api \<Rightarrow> SQSClient \<Rightarrow> string \<Rightarrow> PreviewOptions \<Rightarrow> int \<Rightarrow>
   string set \<Rightarrow> Message list \<Rightarrow> ReceiveMessageRequest list \<Rightarrow> 'w \<Rightarrow>
   (js_error + Message list) \<times> ReceiveMessageRequest list \<times> 'w" where
  "receiveLoop send client queueUrl options maxMsgs seen messages reqs w =
     (if int (length messages) < maxMsgs then
        (let batchSize = min 10 (maxMsgs - int (length messages));
             req = receiveRequest queueUrl options batchSize;
             r = send client req w
         in case fst r of
              Inl err \<Rightarrow> (Inl err, reqs @ [req], snd r)
            | Inr res \<Rightarrow>
                (let batch = (case res of None \<Rightarrow> [] | Some ms \<Rightarrow> ms)
                 in if length batch = 0 then (Inr messages, reqs @ [req], snd r)
                    else
                      (let st = dedupBatch batch (seen, messages, 0)
                       in if snd (snd st) = 0
                          then (Inr (fst (snd st)), reqs @ [req], snd r)
                          else receiveLoop send client queueUrl options maxMsgs
                                 (fst st) (fst (snd st)) (reqs @ [req]) (snd r))))
      else (Inr messages, reqs, w))"
  by pat_completeness auto
termination
proof (relation "measure (\<lambda>(send, client, queueUrl, options, maxMsgs, seen, messages, reqs, w).
                   nat (maxMsgs - int (length messages)))", goal_cases)
  case 1
  then show ?case by simp
next
  case (2 send client queueUrl options maxMsgs seen messages reqs w batchSize req r res batch st)
  obtain seen' messages' n' where st: "dedupBatch batch (seen, messages, 0) = (seen', messages', n')"
    by (cases "dedupBatch batch (seen, messages, 0)")
  from dedupBatch_length [OF st] have "length messages' = length messages + n'" by simp
  moreover from 2 st have "n' \<noteq> 0" by simp
  ultimately show ?case using 2 st by simp
qed

declare receiveLoop.simps [simp del]

definition receiveDeduplicated ::
  "'w receive_api \<Rightarrow> SQSClient \<Rightarrow> string \<Rightarrow> PreviewOptions \<Rightarrow> 'w \<Rightarrow>
   (js_error + Message list) \<times> ReceiveMessageRequest list \<times> 'w" where
  "receiveDeduplicated send client queueUrl options w =
     receiveLoop send client queueUrl options (clampMaxMessages (maxMessages options)) {} [] [] w"


text \<open>
  The proviso on the responses of one call: \<open>fitsAlong\<close> follows the loop from the
  same state and says that every response the loop receives holds at most as many
  messages as its request's \<open>MaxNumberOfMessages\<close> (\<open>min(10, remaining)\<close>).
  It speaks of the responses of this run only, not of what the provider would answer to
  other requests.
\<close>

function fitsAlong ::
  "'w receive_api \<Rightarrow> SQSClient \<Rightarrow> string \<Rightarrow> PreviewOptions \<Rightarrow> int \<Rightarrow>
   string set \<Rightarrow> Message list \<Rightarrow> 'w \<Rightarrow> bool" where
  "fitsAlong send client queueUrl options maxMsgs seen messages w =
     (if int (length messages) < maxMsgs then
        (let batchSize = min 10 (maxMsgs - int (length messages));
             req = receiveRequest queueUrl options batchSize;
             r = send client req w
         in case fst r of
              Inl err \<Rightarrow> True
            | Inr res \<Rightarrow>
                (let batch = (case res of None \<Rightarrow> [] | Some ms \<Rightarrow> ms)
                 in if int (length batch) \<le> MaxNumberOfMessages req then
                      (if length batch = 0 then True
                       else
                         (let st = dedupBatch batch (seen, messages, 0)
                          in if snd (snd st) = 0 then True
                             else fitsAlong send client queueUrl options maxMsgs
                                    (fst st) (fst (snd st)) (snd r)))
                    else False))
      else True)"
  by pat_completeness auto
termination
proof (relation "measure (\<lambda>(send, client, queueUrl, options, maxMsgs, seen, messages, w).
                   nat (maxMsgs - int (length messages)))", goal_cases)
  case 1
  then show ?case by simp
next
  case (2 send client queueUrl options maxMsgs seen messages w batchSize req r res batch st)
  obtain seen' messages' n' where st: "dedupBatch batch (seen, messages, 0) = (seen', messages', n')"
    by (cases "dedupBatch batch (seen, messages, 0)")
  from dedupBatch_length [OF st] have "length messages' = length messages + n'" by simp
  moreover from 2 st have "n' \<noteq> 0" by simp
  ultimately show ?case using 2 st by simp
qed

declare fitsAlong.simps [simp del]

definition responsesFit ::
  "'w receive_api \<Rightarrow> SQSClient \<Rightarrow> string \<Rightarrow> PreviewOptions \<Rightarrow> 'w \<Rightarrow> bool" where
  "responsesFit send client queueUrl options w =
     fitsAlong send client queueUrl options (clampMaxMessages (maxMessages options)) {} [] w"

text \<open>
  A provider for the examples: \<open>mockSend\<close> replays a list of outcomes whatever the
  request, as \<open>mockResolvedValueOnce\<close> does in the repository's tests (once the list is
  used up, a response without \<open>Messages\<close>).
\<close>

definition mockSend :: "(js_error + Message list option) list receive_api" where
  "mockSend client req w = (case w of [] \<Rightarrow> (Inr None, []) | r # rs \<Rightarrow> (r, rs))"

section \<open>Environment registry (src/aws/envConfig.ts)\<close>

record EnvironmentConfig =
  env_id :: string
  env_label :: string
  env_regions :: "string list"
  env_ssoAccountId :: "string option"
  env_ssoRoleName :: "string option"

type_synonym dynamic_envs = "string \<rightharpoonup> EnvironmentConfig list"

definition getDynamicEnvironments :: "string \<Rightarrow> dynamic_envs \<Rightarrow> EnvironmentConfig list" where
  "getDynamicEnvironments sessionId dynamicEnvs =
     (case dynamicEnvs sessionId of None \<Rightarrow> [] | Some envs \<Rightarrow> envs)"

definition getEnvironment :: "string \<Rightarrow> string \<Rightarrow> dynamic_envs \<Rightarrow> js_error + EnvironmentConfig" where
  "getEnvironment envId sessionId dynamicEnvs =
     (case find (\<lambda>e. env_id e = envId) (getDynamicEnvironments sessionId dynamicEnvs) of
        Some dynEnv \<Rightarrow> Inr dynEnv
      | None \<Rightarrow> Inl (Error (''Unknown environment id: '' @ envId)))"

section \<open>Queue service (src/aws/sqsService.ts): client creation and redrive\<close>

record GetRoleCredentialsRequest =
  grc_accessToken :: string
  grc_accountId :: string
  grc_roleName :: string

record RoleCredentials =
  rc_accessKeyId :: "string option"
  rc_secretAccessKey :: "string option"
  rc_sessionToken :: "string option"

record SendMessageBatchRequestEntry =
  send_Id :: string
  MessageBody :: string
  MessageAttributes :: "(string \<times> string) list option"

record SendMessageBatchRequest =
  send_QueueUrl :: string
  send_Entries :: "SendMessageBatchRequestEntry list"

record DeleteMessageBatchRequestEntry =
  delete_Id :: string
  delete_ReceiptHandle :: string

record DeleteMessageBatchRequest =
  delete_QueueUrl :: string
  delete_Entries :: "DeleteMessageBatchRequestEntry list"

text \<open>An entry of a response's \<open>Failed\<close> list; the code reads its \<open>Id\<close> only.\<close>

record BatchResultErrorEntry =
  failed_Id :: "string option"

text \<open>
  The providers behind \<open>sso.send\<close> and \<open>client.send\<close>, as state machines over a
  world \<open>'w\<close>. A call rejects (\<open>Inl\<close>) or resolves: \<open>getRoleCredentials\<close> with the
  \<open>roleCredentials\<close> field of the response, the two batch calls with its \<open>Failed\<close>
  field (\<open>None\<close>: the field is absent). The first argument of \<open>getRoleCredentials\<close>
  is the region of the \<open>SSOClient\<close>.
\<close>

record 'w sqs_api =
  getRoleCredentials ::
    "string \<Rightarrow> GetRoleCredentialsRequest \<Rightarrow> 'w \<Rightarrow> (js_error + RoleCredentials option) \<times> 'w"
  sendMessageBatch ::
    "SQSClient \<Rightarrow> SendMessageBatchRequest \<Rightarrow> 'w \<Rightarrow>
       (js_error + BatchResultErrorEntry list option) \<times> 'w"
  deleteMessageBatch ::
    "SQSClient \<Rightarrow> DeleteMessageBatchRequest \<Rightarrow> 'w \<Rightarrow>
       (js_error + BatchResultErrorEntry list option) \<times> 'w"

text \<open>
  \<open>createSqsClient\<close>. It reads the session through \<open>getSsoSession\<close>, so it can
  evict an expired entry; the store it leaves is returned with the outcome.
\<close>

definition createSqsClient ::
  "'w sqs_api \<Rightarrow> int \<Rightarrow> dynamic_envs \<Rightarrow> string \<Rightarrow> string \<Rightarrow> string \<Rightarrow>
   session_store \<Rightarrow> 'w \<Rightarrow> (js_error + SQSClient) \<times> session_store \<times> 'w" where
  "createSqsClient api now dynamicEnvs envId region sessionId store w =
     (case getEnvironment envId sessionId dynamicEnvs of
        Inl err \<Rightarrow> (Inl err, store, w)
      | Inr env \<Rightarrow>
          (let g = getSsoSession now sessionId store
           in case fst g of
                None \<Rightarrow> (Inl (Error ''No active SSO session for this client''), snd g, w)
              | Some session \<Rightarrow>
                  (case (env_ssoAccountId env, env_ssoRoleName env) of
                     (Some account, Some role) \<Rightarrow>
                       if account = [] \<or> role = []
                       then (Inl (Error ''Environment is missing SSO account info''), snd g, w)
                       else
                         (let r = getRoleCredentials api (ssoRegion session)
                                    \<lparr>grc_accessToken = accessToken session,
                                     grc_accountId = account,
                                     grc_roleName = role\<rparr> w
                          in case fst r of
                               Inl err \<Rightarrow> (Inl err, snd g, snd r)
                             | Inr rc \<Rightarrow>
                                 (case (rc, Option.bind rc rc_accessKeyId,
                                        Option.bind rc rc_secretAccessKey) of
                                    (Some creds, Some k, Some sk) \<Rightarrow>
                                      if k = [] \<or> sk = []
                                      then (Inl (Error
                                        ''Failed to get role credentials from SSO for environment''),
                                        snd g, snd r)
                                      else (Inr \<lparr>client_region = region, accessKeyId = k,
                                                  secretAccessKey = sk,
                                                  sessionToken = rc_sessionToken creds\<rparr>,
                                            snd g, snd r)
                                  | _ \<Rightarrow> (Inl (Error
                                        ''Failed to get role credentials from SSO for environment''),
                                        snd g, snd r)))
                   | _ \<Rightarrow> (Inl (Error ''Environment is missing SSO account info''), snd g, w))))"

record RedriveInputMessage =
  messageId :: string
  receiptHandle :: string
  body :: string
  messageAttributes :: "(string \<times> string) list option"

record RedriveResultSummary =
  sent :: int
  sendFailed :: int
  deleted :: int
  deleteFailed :: int

text \<open>
  The text a template literal gives for a non-negative integer index: its decimal digits.
\<close>

fun numberToString :: "nat \<Rightarrow> string" where
  "numberToString n =
     (if n < 10 then [''0123456789'' ! n]
      else numberToString (n div 10) @ [''0123456789'' ! (n mod 10)])"

declare numberToString.simps [simp del]

text \<open>The entry id \<open>`${i + idx}-${m.messageId}`\<close>, for the number \<open>i + idx\<close>.\<close>

definition compositeId :: "nat \<Rightarrow> RedriveInputMessage \<Rightarrow> string" where
  "compositeId n m = numberToString n @ ''-'' @ messageId m"

datatype sqs_call = SendCall SendMessageBatchRequest | DeleteCall DeleteMessageBatchRequest

text \<open>
  One pass through the body of \<open>for (let i = 0; i < messages.length; i += 10)\<close>, on
  the four counters (\<open>acc\<close>). \<open>enumerate 0 xs\<close> pairs each element with the index
  that \<open>map\<close> and \<open>filter\<close> pass to their callback. \<open>calls\<close> is the ghost list of
  the requests sent so far.
\<close>

definition redriveBatch ::
  "'w sqs_api \<Rightarrow> SQSClient \<Rightarrow> string \<Rightarrow> string \<Rightarrow> RedriveInputMessage list \<Rightarrow> bool \<Rightarrow>
   nat \<Rightarrow> RedriveResultSummary \<Rightarrow> sqs_call list \<Rightarrow> 'w \<Rightarrow>
   (js_error + RedriveResultSummary) \<times> sqs_call list \<times> 'w" where
  "redriveBatch api client dlqUrl targetUrl messages deleteAfterSend i acc calls w =
     (let batch = take 10 (drop i messages);
          sendReq = \<lparr>send_QueueUrl = targetUrl,
                     send_Entries =
                       map (\<lambda>(idx, m). \<lparr>send_Id = compositeId (i + idx) m,
                                         MessageBody = body m,
                                         MessageAttributes = messageAttributes m\<rparr>)
                           (enumerate 0 batch)\<rparr>;
          sendRes = sendMessageBatch api client sendReq w
      in case fst sendRes of
           Inl err \<Rightarrow> (Inl err, calls @ [SendCall sendReq], snd sendRes)
         | Inr failed \<Rightarrow>
             (let failedSendIds =
                    set (map failed_Id (case failed of None \<Rightarrow> [] | Some fs \<Rightarrow> fs));
                  successfulBatch =
                    map snd (filter (\<lambda>(idx, m). Some (compositeId (i + idx) m) \<notin> failedSendIds)
                                    (enumerate 0 batch));
                  acc1 = acc\<lparr>sent := sent acc + int (length successfulBatch),
                             sendFailed := sendFailed acc +
                               (int (length batch) - int (length successfulBatch))\<rparr>
              in if deleteAfterSend \<and> length successfulBatch > 0 then
                   (let deleteReq = \<lparr>delete_QueueUrl = dlqUrl,
                                     delete_Entries =
                                       map (\<lambda>(idx, m). \<lparr>delete_Id = compositeId (i + idx) m,
                                                         delete_ReceiptHandle = receiptHandle m\<rparr>)
                                           (enumerate 0 successfulBatch)\<rparr>;
                        deleteRes = deleteMessageBatch api client deleteReq (snd sendRes)
                    in case fst deleteRes of
                         Inl err \<Rightarrow>
                           (Inl err, calls @ [SendCall sendReq, DeleteCall deleteReq],
                            snd deleteRes)
                       | Inr dfailed \<Rightarrow>
                           (let failedDeleteCount =
                                  int (length (case dfailed of None \<Rightarrow> [] | Some fs \<Rightarrow> fs));
                                acc2 = acc1\<lparr>deleteFailed := deleteFailed acc1 + failedDeleteCount,
                                            deleted := deleted acc1 +
                                              (int (length successfulBatch) - failedDeleteCount)\<rparr>
                            in (Inr acc2, calls @ [SendCall sendReq, DeleteCall deleteReq],
                                snd deleteRes)))
                 else (Inr acc1, calls @ [SendCall sendReq], snd sendRes)))"

function redriveLoop ::
  "'w sqs_api \<Rightarrow> SQSClient \<Rightarrow> string \<Rightarrow> string \<Rightarrow> RedriveInputMessage list \<Rightarrow> bool \<Rightarrow>
   nat \<Rightarrow> RedriveResultSummary \<Rightarrow> sqs_call list \<Rightarrow> 'w \<Rightarrow>
   (js_error + RedriveResultSummary) \<times> sqs_call list \<times> 'w" where
  "redriveLoop api client dlqUrl targetUrl messages deleteAfterSend i acc calls w =
     (if i < length messages then
        (let b = redriveBatch api client dlqUrl targetUrl messages deleteAfterSend i acc calls w
         in case fst b of
              Inl err \<Rightarrow> (Inl err, snd b)
            | Inr acc' \<Rightarrow>
                redriveLoop api client dlqUrl targetUrl messages deleteAfterSend (i + 10)
                  acc' (fst (snd b)) (snd (snd b)))
      else (Inr acc, calls, w))"
  by pat_completeness auto
termination
  by (relation "measure (\<lambda>(api, client, dlqUrl, targetUrl, messages, deleteAfterSend, i, acc,
                           calls, w). length messages - i)") auto

declare redriveLoop.simps [simp del]

definition redriveMessages ::
  "'w sqs_api \<Rightarrow> int \<Rightarrow> dynamic_envs \<Rightarrow> string \<Rightarrow> string \<Rightarrow> string \<Rightarrow> string \<Rightarrow> string \<Rightarrow>
   RedriveInputMessage list \<Rightarrow> bool \<Rightarrow> session_store \<Rightarrow> 'w \<Rightarrow>
   (js_error + RedriveResultSummary) \<times> sqs_call list \<times> session_store \<times> 'w" where
  "redriveMessages api now dynamicEnvs envId region sessionId dlqUrl targetUrl messages
     deleteAfterSend store w =
     (let c = createSqsClient api now dynamicEnvs envId region sessionId store w
      in case fst c of
           Inl err \<Rightarrow> (Inl err, [], snd c)
         | Inr client \<Rightarrow>
             (let l = redriveLoop api client dlqUrl targetUrl messages deleteAfterSend 0
                        \<lparr>sent = 0, sendFailed = 0, deleted = 0, deleteFailed = 0\<rparr> []
                        (snd (snd c))
              in (fst l, fst (snd l), fst (snd c), snd (snd l))))"

section \<open>Attribute filter (src/filtering/jsonFilter.ts)\<close>

text \<open>
  The filter reads messages of the shape of \<open>Message\<close> (\<open>RawMessage\<close>: optional
  \<open>MessageId\<close>, \<open>ReceiptHandle\<close> and \<open>Body\<close>; further keys are never read).

  The JavaScript values it handles are kept abstract (\<open>'v\<close>, with \<open>None\<close> for
  \<open>undefined\<close>), and the four operations of the runtime it applies to them are
  parameters, so that what is proved holds whatever they compute:
  \<^item> \<open>JSON_parse\<close>: \<open>JSON.parse(text)\<close>, \<open>Inr\<close> the value or \<open>Inl\<close> the
    \<open>message\<close> of the error thrown;
  \<^item> \<open>isObject\<close>: the negation of \<open>current == null || typeof current !== "object"\<close>;
  \<^item> \<open>getProp\<close>: the property read \<open>current[part]\<close>;
  \<^item> \<open>toString\<close>: \<open>String(value)\<close>, \<open>Inr\<close> the text or \<open>Inl\<close> the error it
    throws (a \<open>TypeError\<close> for an object whose own \<open>toString\<close> is not callable).
\<close>

record 'v js_runtime =
  JSON_parse :: "string \<Rightarrow> string + 'v"
  isObject :: "'v \<Rightarrow> bool"
  getProp :: "'v \<Rightarrow> string \<Rightarrow> 'v option"
  toString :: "'v \<Rightarrow> js_error + string"

record 'v FilteredMessage =
  raw :: Message
  parsedBody :: "'v option"
  attributeValue :: "'v option"
  parseError :: "string option"

text \<open>\<open>path.split(".")\<close>: the pieces between the dots, one piece for a text without dots.\<close>

fun splitOn :: "char \<Rightarrow> string \<Rightarrow> string list" where
  "splitOn c [] = [[]]"
| "splitOn c (x # xs) =
     (if x = c then [] # splitOn c xs
      else (case splitOn c xs of [] \<Rightarrow> [[x]] | p # ps \<Rightarrow> (x # p) # ps))"

text \<open>The \<open>for (const part of parts)\<close> loop of \<open>getByPath\<close>.\<close>

fun descend :: "'v js_runtime \<Rightarrow> 'v option \<Rightarrow> string list \<Rightarrow> 'v option" where
  "descend rt current [] = current"
| "descend rt current (part # parts) =
     (case current of
        None \<Rightarrow> None
      | Some c \<Rightarrow> if \<not> isObject rt c then None else descend rt (getProp rt c part) parts)"

definition getByPath :: "'v js_runtime \<Rightarrow> 'v option \<Rightarrow> string \<Rightarrow> 'v option" where
  "getByPath rt obj path =
     (if path = [] then None else descend rt obj (splitOn (CHR ''.'') path))"

text \<open>
  The loop of \<open>filterByAttributePath\<close> over the messages, with the \<open>results\<close> pushed
  so far. \<open>if (parseError)\<close> tests the caught message for truthiness, so an error
  with an empty message would go on with \<open>parsed\<close> undefined. Only \<open>JSON.parse\<close>
  is inside the \<open>try\<close> block: an error thrown by \<open>String(value)\<close> ends the whole
  call, which then returns no list (\<open>Inl\<close>).
\<close>

fun filterLoop ::
  "'v js_runtime \<Rightarrow> string \<Rightarrow> string \<Rightarrow> bool \<Rightarrow> 'v FilteredMessage list \<Rightarrow> Message list \<Rightarrow>
   js_error + 'v FilteredMessage list" where
  "filterLoop rt attributePath expectedValue exclude results [] = Inr results"
| "filterLoop rt attributePath expectedValue exclude results (msg # rest) =
     (if \<not> truthy (Body msg) then filterLoop rt attributePath expectedValue exclude results rest
      else
        (let r = JSON_parse rt (case Body msg of None \<Rightarrow> [] | Some b \<Rightarrow> b);
             parsed = (case r of Inr v \<Rightarrow> Some v | Inl e \<Rightarrow> None);
             parseError = (case r of Inr v \<Rightarrow> None | Inl e \<Rightarrow> Some e)
         in if truthy parseError then
              filterLoop rt attributePath expectedValue exclude
                (results @ [\<lparr>raw = msg, parsedBody = None, attributeValue = None,
                             parseError = parseError\<rparr>]) rest
            else
              (case getByPath rt parsed attributePath of
                 None \<Rightarrow>
                   if exclude then
                     filterLoop rt attributePath expectedValue exclude
                       (results @ [\<lparr>raw = msg, parsedBody = parsed, attributeValue = None,
                                    parseError = None\<rparr>]) rest
                   else filterLoop rt attributePath expectedValue exclude results rest
               | Some v \<Rightarrow>
                   (case toString rt v of
                      Inl err \<Rightarrow> Inl err
                    | Inr str \<Rightarrow>
                        (let matches = (str = expectedValue)
                         in if (if exclude then \<not> matches else matches) then
                              filterLoop rt attributePath expectedValue exclude
                                (results @ [\<lparr>raw = msg, parsedBody = parsed,
                                             attributeValue = Some v, parseError = None\<rparr>]) rest
                            else filterLoop rt attributePath expectedValue exclude results rest)))))"

definition filterByAttributePath ::
  "'v js_runtime \<Rightarrow> Message list \<Rightarrow> string \<Rightarrow> string \<Rightarrow> bool \<Rightarrow>
   js_error + 'v FilteredMessage list" where
  "filterByAttributePath rt messages attributePath expectedValue exclude =
     filterLoop rt attributePath expectedValue exclude [] messages"

text \<open>
  The two sets of messages the filter's contract speaks of: those whose body parses and
  whose path resolves to a value, and those whose body makes \<open>JSON.parse\<close> throw
  (an error with a message).
\<close>

definition pathFound :: "'v js_runtime \<Rightarrow> string \<Rightarrow> Message \<Rightarrow> bool" where
  "pathFound rt attributePath msg =
     (case Body msg of
        None \<Rightarrow> False
      | Some b \<Rightarrow> b \<noteq> [] \<and>
          (case JSON_parse rt b of
             Inl e \<Rightarrow> False
           | Inr v \<Rightarrow> getByPath rt (Some v) attributePath \<noteq> None))"

definition parseFails :: "'v js_runtime \<Rightarrow> Message \<Rightarrow> bool" where
  "parseFails rt msg =
     (case Body msg of
        None \<Rightarrow> False
      | Some b \<Rightarrow> b \<noteq> [] \<and> (case JSON_parse rt b of Inl e \<Rightarrow> e \<noteq> [] | Inr v \<Rightarrow> False))"

text \<open>
  A runtime for the examples, on a small type of JSON values. Its \<open>JSON_parse\<close> knows
  the texts \<open>[]\<close>, \<open>{}\<close>, \<open>null\<close> and \<open>[{"toString":1}]\<close> (written with
  \<open>CHR 0x22\<close> for the double quote) and rejects every other text, which is right for
  the texts the examples use. An array has its elements under their indices and the
  property \<open>length\<close>. \<open>String\<close> of an array joins its elements with commas, of
  an object is \<open>[object Object]\<close>, unless the object has an own key \<open>toString\<close>:
  a parsed value is never callable, and the conversion throws a \<open>TypeError\<close>.
\<close>

datatype json = JNull | JNumber nat | JArray "json list" | JObject "(string \<times> json) list"

definition typeError :: js_error where
  "typeError = \<lparr>err_name = Some ''TypeError'', err_error = None,
                 err_message = ''Cannot convert object to primitive value''\<rparr>"

fun joinStrings :: "(js_error + string) list \<Rightarrow> js_error + string" where
  "joinStrings [] = Inr []"
| "joinStrings [r] = r"
| "joinStrings (r # rs) =
     (case r of
        Inl err \<Rightarrow> Inl err
      | Inr str \<Rightarrow>
          (case joinStrings rs of Inl err \<Rightarrow> Inl err | Inr others \<Rightarrow> Inr (str @ '','' @ others)))"

fun jsString :: "json \<Rightarrow> js_error + string" where
  "jsString JNull = Inr ''null''"
| "jsString (JNumber n) = Inr (numberToString n)"
| "jsString (JArray xs) =
     joinStrings (map (\<lambda>x. case x of JNull \<Rightarrow> Inr [] | _ \<Rightarrow> jsString x) xs)"
| "jsString (JObject kvs) =
     (if map_of kvs ''toString'' = None then Inr ''[object Object]'' else Inl typeError)"

definition exampleRuntime :: "json js_runtime" where
  "exampleRuntime =
     \<lparr>JSON_parse = (\<lambda>s. if s = ''[]'' then Inr (JArray [])
                         else if s = ''{}'' then Inr (JObject [])
                         else if s = ''null'' then Inr JNull
                         else if s = ''[{'' @ [CHR 0x22] @ ''toString'' @ [CHR 0x22] @ '':1}]''
                           then Inr (JArray [JObject [(''toString'', JNumber 1)]])
                         else Inl ''Unexpected token in JSON at position 0''),
      isObject = (\<lambda>v. case v of JArray xs \<Rightarrow> True | JObject kvs \<Rightarrow> True | _ \<Rightarrow> False),
      getProp = (\<lambda>v k. case v of
                   JArray xs \<Rightarrow>
                     if k = ''length'' then Some (JNumber (length xs))
                     else map_of (zip (map numberToString [0..<length xs]) xs) k
                 | JObject kvs \<Rightarrow> map_of kvs k
                 | _ \<Rightarrow> None),
      toString = jsString\<rparr>"

definition exampleBody :: "string option \<Rightarrow> Message" where
  "exampleBody b = \<lparr>MessageId = Some ''m'', ReceiptHandle = Some ''rh'', Body = b\<rparr>"

section \<open>Device login (src/aws/ssoLogin.ts)\<close>

record RegisteredClient =
  clientId :: string
  clientSecret :: string

record SsoProfile =
  profile_name :: string
  profile_displayName :: string
  profile_defaultRegion :: "string option"
  profile_ssoStartUrl :: string
  profile_ssoRegion :: string
  profile_ssoAccountId :: string
  profile_ssoRoleName :: string
  profile_ssoSession :: string

record RegisterClientRequest =
  clientName :: string
  clientType :: string

record RegisterClientResponse =
  res_clientId :: "string option"
  res_clientSecret :: "string option"

record CreateTokenRequest =
  ct_clientId :: string
  ct_clientSecret :: string
  ct_deviceCode :: string
  ct_grantType :: string

record CreateTokenResponse =
  tok_accessToken :: "string option"
  tok_expiresIn :: "int option"

record PollLoginResult =
  success :: bool
  pending :: "bool option"

text \<open>
  The identity provider behind \<open>new SSOOIDCClient({ region }).send(...)\<close>: the first
  argument of each call is the region the client was built for.
\<close>

record 'w oidc_api =
  registerClient ::
    "string \<Rightarrow> RegisterClientRequest \<Rightarrow> 'w \<Rightarrow> (js_error + RegisterClientResponse) \<times> 'w"
  createToken ::
    "string \<Rightarrow> CreateTokenRequest \<Rightarrow> 'w \<Rightarrow> (js_error + CreateTokenResponse) \<times> 'w"

text \<open>
  \<open>getRegisteredClient\<close>, on the module-level variable \<open>registeredClient\<close>
  (\<open>None\<close> for \<open>null\<close>), which it returns updated.
\<close>

definition getRegisteredClient ::
  "'w oidc_api \<Rightarrow> string \<Rightarrow> RegisteredClient option \<Rightarrow> 'w \<Rightarrow>
   (js_error + RegisteredClient) \<times> RegisteredClient option \<times> 'w" where
  "getRegisteredClient api region registeredClient w =
     (case registeredClient of
        Some cached \<Rightarrow> (Inr cached, registeredClient, w)
      | None \<Rightarrow>
          (let r = registerClient api region
                     \<lparr>clientName = ''sqs-dlq-redrive-webapp'', clientType = ''public''\<rparr> w
           in case fst r of
                Inl err \<Rightarrow> (Inl err, None, snd r)
              | Inr res \<Rightarrow>
                  if \<not> truthy (res_clientId res) \<or> \<not> truthy (res_clientSecret res)
                  then (Inl (Error ''Failed to register SSO OIDC client''), None, snd r)
                  else
                    (let c = \<lparr>clientId = (case res_clientId res of Some i \<Rightarrow> i | None \<Rightarrow> []),
                              clientSecret =
                                (case res_clientSecret res of Some i \<Rightarrow> i | None \<Rightarrow> [])\<rparr>
                     in (Inr c, Some c, snd r))))"

text \<open>The test of the \<open>catch\<close> block in \<open>pollForLogin\<close> for "authorization pending".\<close>

definition isPending :: "js_error \<Rightarrow> bool" where
  "isPending err \<longleftrightarrow>
     err_name err = Some ''AuthorizationPendingException'' \<or>
     err_error err = Some ''authorization_pending''"

text \<open>
  \<open>pollForLogin\<close>. \<open>profiles\<close> is what \<open>loadSsoProfiles()\<close> returns at the call,
  \<open>now\<close> what \<open>Date.now()\<close> reads after the token call. It returns the outcome, the
  client cache, the session store and the provider's world.
\<close>

definition pollForLogin ::
  "'w oidc_api \<Rightarrow> SsoProfile list \<Rightarrow> int \<Rightarrow> string \<Rightarrow> string \<Rightarrow> string \<Rightarrow>
   RegisteredClient option \<Rightarrow> session_store \<Rightarrow> 'w \<Rightarrow>
   (js_error + PollLoginResult) \<times> RegisteredClient option \<times> session_store \<times> 'w" where
  "pollForLogin api profiles now profileName deviceCode sessionId registeredClient store w =
     (case find (\<lambda>p. profile_name p = profileName) profiles of
        None \<Rightarrow> (Inl (Error (''Unknown SSO profile: '' @ profileName)), registeredClient, store, w)
      | Some profile \<Rightarrow>
          (let g = getRegisteredClient api (profile_ssoRegion profile) registeredClient w
           in case fst g of
                Inl err \<Rightarrow> (Inl err, fst (snd g), store, snd (snd g))
              | Inr c \<Rightarrow>
                  (let t = createToken api (profile_ssoRegion profile)
                             \<lparr>ct_clientId = clientId c,
                              ct_clientSecret = clientSecret c,
                              ct_deviceCode = deviceCode,
                              ct_grantType = ''urn:ietf:params:oauth:grant-type:device_code''\<rparr>
                             (snd (snd g))
                   in case fst t of
                        Inl err \<Rightarrow>
                          if isPending err
                          then (Inr \<lparr>success = False, pending = Some True\<rparr>,
                                fst (snd g), store, snd t)
                          else (Inl err, fst (snd g), store, snd t)
                      | Inr tokenRes \<Rightarrow>
                          (case (tok_accessToken tokenRes, tok_expiresIn tokenRes) of
                             (Some token, Some expiresIn) \<Rightarrow>
                               if token = [] \<or> expiresIn = 0
                               then (Inl (Error ''Failed to obtain SSO access token''),
                                     fst (snd g), store, snd t)
                               else (Inr \<lparr>success = True, pending = None\<rparr>, fst (snd g),
                                     setSsoSession sessionId
                                       \<lparr>ssoSession = profile_ssoSession profile,
                                        ssoRegion = profile_ssoRegion profile,
                                        accessToken = token,
                                        expiresAt = Some (now + expiresIn * 1000)\<rparr> store,
                                     snd t)
                           | _ \<Rightarrow> (Inl (Error ''Failed to obtain SSO access token''),
                                    fst (snd g), store, snd t)))))"

text \<open>
  An identity provider for the examples. Its world records the regions in which a
  client was registered and the token requests with their regions, and holds the outcome
  of the token call; a client registered in region \<open>r\<close> gets the id \<open>client-r\<close>.
\<close>

record oidc_world =
  registrations :: "string list"
  tokenRequests :: "(string \<times> CreateTokenRequest) list"
  tokenOutcome :: "js_error + CreateTokenResponse"

definition mockOidc :: "oidc_world oidc_api" where
  "mockOidc =
     \<lparr>registerClient = (\<lambda>region req w.
        (Inr \<lparr>res_clientId = Some (''client-'' @ region),
              res_clientSecret = Some (''secret-'' @ region)\<rparr>,
         w\<lparr>registrations := registrations w @ [region]\<rparr>)),
      createToken = (\<lambda>region req w.
        (tokenOutcome w, w\<lparr>tokenRequests := tokenRequests w @ [(region, req)]\<rparr>))\<rparr>"

definition exampleProfile :: "string \<Rightarrow> string \<Rightarrow> SsoProfile" where
  "exampleProfile n region =
     \<lparr>profile_name = n, profile_displayName = n, profile_defaultRegion = None,
      profile_ssoStartUrl = ''https://portal.awsapps.com/start'', profile_ssoRegion = region,
      profile_ssoAccountId = ''111111111111'', profile_ssoRoleName = ''Admin'',
      profile_ssoSession = ''my-sso''\<rparr>"

definition pendingError :: js_error where
  "pendingError = \<lparr>err_name = Some ''AuthorizationPendingException'', err_error = None,
                    err_message = ''Authorization pending''\<rparr>"

text \<open>Example data: a message with the given id, and a client.\<close>

definition exampleMessage :: "string \<Rightarrow> Message" where
  "exampleMessage i = \<lparr>MessageId = Some i, ReceiptHandle = None, Body = None\<rparr>"

definition exampleClient :: SQSClient where
  "exampleClient = \<lparr>client_region = ''eu-west-1'', accessKeyId = ''AKIA-FAKE'',
                     secretAccessKey = ''secret-fake'', sessionToken = Some ''session-fake''\<rparr>"

definition exampleOptions :: "int \<Rightarrow> PreviewOptions" where
  "exampleOptions n = \<lparr>maxMessages = n, waitTimeSeconds = None, visibilityTimeout = None\<rparr>"

text \<open>
  Example data for the redrive: a provider that hands out fixed role credentials and
  replays a list of batch outcomes (as the repository's tests mock \<open>send\<close>), one
  registered environment, one live session, and input messages.
\<close>

definition mockApi :: "(js_error + BatchResultErrorEntry list option) list sqs_api" where
  "mockApi =
     \<lparr>getRoleCredentials = (\<lambda>region req w.
        (Inr (Some \<lparr>rc_accessKeyId = Some ''AKIA-FAKE'', rc_secretAccessKey = Some ''secret-fake'',
                    rc_sessionToken = Some ''session-fake''\<rparr>), w)),
      sendMessageBatch = (\<lambda>client req w. case w of [] \<Rightarrow> (Inr None, []) | r # rs \<Rightarrow> (r, rs)),
      deleteMessageBatch = (\<lambda>client req w. case w of [] \<Rightarrow> (Inr None, []) | r # rs \<Rightarrow> (r, rs))\<rparr>"

definition exampleEnvs :: dynamic_envs where
  "exampleEnvs = [''sess-1'' \<mapsto> [\<lparr>env_id = ''env-1'', env_label = ''Dev (Admin)'',
       env_regions = [''eu-west-1''], env_ssoAccountId = Some ''111111111111'',
       env_ssoRoleName = Some ''AdminRole''\<rparr>]]"

definition exampleStore :: session_store where
  "exampleStore = [''sess-1'' \<mapsto> \<lparr>ssoSession = ''my-sso'', ssoRegion = ''eu-west-1'',
       accessToken = ''token-abc'', expiresAt = Some 3600000\<rparr>]"

definition exampleInput :: "string \<Rightarrow> string \<Rightarrow> RedriveInputMessage" where
  "exampleInput i rh = \<lparr>messageId = i, receiptHandle = rh, body = ''{}'',
                         messageAttributes = None\<rparr>"

section \<open>Properties of the session store\<close>

lemma getSsoSession_absent:
  "store sessionId = None \<Longrightarrow> getSsoSession now sessionId store = (None, store)"
  by (simp add: getSsoSession_def)

lemma run_op_keeps_absent:
  "store sessionId = None \<Longrightarrow> \<not> puts_to sessionId x \<Longrightarrow> run_op x store sessionId = None"
  by (cases x)
     (auto simp: getSsoSession_def setSsoSession_def split: option.splits)

lemma run_ops_keeps_absent:
  "store sessionId = None \<Longrightarrow> \<forall>x \<in> set xs. \<not> puts_to sessionId x \<Longrightarrow>
     run_ops xs store sessionId = None"
proof (induction xs arbitrary: store)
  case Nil
  then show ?case by simp
next
  case (Cons x xs)
  from Cons.prems have "run_op x store sessionId = None"
    by (simp add: run_op_keeps_absent)
  with Cons show ?case by simp
qed

text \<open>
  C4. A session stored with an \<open>expiresAt\<close> that has passed is not returned and is
  deleted from the store; after that, whatever reads (of any id, at any clock value) and
  writes to other ids follow, a read of the same id returns absent. And a session that
  a read does return is the stored one and has not expired at the clock value of the read.
\<close>

theorem getSsoSession_expiry:
  "(store sessionId = Some s \<and> expiresAt s = Some t \<and> t \<le> now \<longrightarrow>
      getSsoSession now sessionId store = (None, store(sessionId := None)) \<and>
      (\<forall>ops now'. (\<forall>x \<in> set ops. \<not> puts_to sessionId x) \<longrightarrow>
         fst (getSsoSession now' sessionId
                (run_ops ops (snd (getSsoSession now sessionId store)))) = None))
   \<and> (getSsoSession now sessionId store = (Some r, store') \<longrightarrow>
        store sessionId = Some r \<and> store' = store \<and>
        (\<forall>e. expiresAt r = Some e \<longrightarrow> now < e))"
proof (intro conjI impI)
  assume a: "store sessionId = Some s \<and> expiresAt s = Some t \<and> t \<le> now"
  then show g: "getSsoSession now sessionId store = (None, store(sessionId := None))"
    by (simp add: getSsoSession_def)
  show "\<forall>ops now'. (\<forall>x \<in> set ops. \<not> puts_to sessionId x) \<longrightarrow>
         fst (getSsoSession now' sessionId
                (run_ops ops (snd (getSsoSession now sessionId store)))) = None"
  proof (intro allI impI)
    fix ops now'
    assume "\<forall>x \<in> set ops. \<not> puts_to sessionId x"
    then have "run_ops ops (store(sessionId := None)) sessionId = None"
      by (intro run_ops_keeps_absent) simp_all
    then show "fst (getSsoSession now' sessionId
                (run_ops ops (snd (getSsoSession now sessionId store)))) = None"
      by (simp add: g getSsoSession_absent)
  qed
next
  assume "getSsoSession now sessionId store = (Some r, store')"
  then show "store sessionId = Some r" "store' = store"
    "\<forall>e. expiresAt r = Some e \<longrightarrow> now < e"
    by (auto simp: getSsoSession_def split: option.splits if_splits)
qed

theorem getSsoSession_expiry_witness:
  "getSsoSession 2000 ''sess-abc''
     [''sess-abc'' \<mapsto> \<lparr>ssoSession = ''my-sso'', ssoRegion = ''eu-west-1'',
                        accessToken = ''token-xyz'', expiresAt = Some 1000\<rparr>]
     = (None, Map.empty)
   \<and> fst (getSsoSession 500 ''sess-abc''
       (run_ops [GetOp ''sess-abc'' 100,
                 PutOp ''other'' \<lparr>ssoSession = ''my-sso'', ssoRegion = ''eu-west-1'',
                        accessToken = ''t2'', expiresAt = None\<rparr>]
          (snd (getSsoSession 2000 ''sess-abc''
             [''sess-abc'' \<mapsto> \<lparr>ssoSession = ''my-sso'', ssoRegion = ''eu-west-1'',
                        accessToken = ''token-xyz'', expiresAt = Some 1000\<rparr>])))) = None
   \<and> getSsoSession 500 ''sess-abc''
     [''sess-abc'' \<mapsto> \<lparr>ssoSession = ''my-sso'', ssoRegion = ''eu-west-1'',
                        accessToken = ''token-xyz'', expiresAt = Some 1000\<rparr>]
     = (Some \<lparr>ssoSession = ''my-sso'', ssoRegion = ''eu-west-1'',
                        accessToken = ''token-xyz'', expiresAt = Some 1000\<rparr>,
        [''sess-abc'' \<mapsto> \<lparr>ssoSession = ''my-sso'', ssoRegion = ''eu-west-1'',
                        accessToken = ''token-xyz'', expiresAt = Some 1000\<rparr>])
   \<and> (500::int) < 1000"
  using getSsoSession_expiry
    [of "[''sess-abc'' \<mapsto> \<lparr>ssoSession = ''my-sso'', ssoRegion = ''eu-west-1'',
                        accessToken = ''token-xyz'', expiresAt = Some 1000\<rparr>]"
        "''sess-abc''"
        "\<lparr>ssoSession = ''my-sso'', ssoRegion = ''eu-west-1'',
                        accessToken = ''token-xyz'', expiresAt = Some 1000\<rparr>"
        1000 2000]
  by (simp add: getSsoSession_def setSsoSession_def)



section \<open>Properties of the deduplicated receive\<close>

lemma dedupBatch_keys:
  "dedupBatch batch (seen, messages, n) = (seen', messages', n') \<Longrightarrow>
   seen = dedupKey ` set messages \<Longrightarrow> distinct (map dedupKey messages) \<Longrightarrow>
   seen' = dedupKey ` set messages' \<and> distinct (map dedupKey messages')"
proof (induction batch arbitrary: seen messages n)
  case Nil
  then show ?case by auto
next
  case (Cons msg batch)
  show ?case
  proof (cases "dedupKey msg \<in> seen")
    case True
    with Cons.prems have "dedupBatch batch (seen, messages, n) = (seen', messages', n')"
      by simp
    from Cons.IH [OF this Cons.prems(2,3)] show ?thesis .
  next
    case False
    with Cons.prems
    have step: "dedupBatch batch (insert (dedupKey msg) seen, messages @ [msg], n + 1) =
            (seen', messages', n')"
      by simp
    have "insert (dedupKey msg) seen = dedupKey ` set (messages @ [msg])"
      using Cons.prems(2) by auto
    moreover have "distinct (map dedupKey (messages @ [msg]))"
      using Cons.prems(2,3) False by auto
    ultimately show ?thesis using Cons.IH [OF step] by blast
  qed
qed

lemma dedupBatch_new_le:
  "dedupBatch batch (seen, messages, n) = (seen', messages', n') \<Longrightarrow>
     n' \<le> n + length batch"
proof (induction batch arbitrary: seen messages n)
  case Nil
  then show ?case by simp
next
  case (Cons msg batch)
  show ?case
  proof (cases "dedupKey msg \<in> seen")
    case True
    with Cons.prems have "dedupBatch batch (seen, messages, n) = (seen', messages', n')"
      by simp
    from Cons.IH [OF this] show ?thesis by simp
  next
    case False
    with Cons.prems
    have "dedupBatch batch (insert (dedupKey msg) seen, messages @ [msg], n + 1) =
            (seen', messages', n')"
      by simp
    from Cons.IH [OF this] show ?thesis by simp
  qed
qed

text \<open>The ways one pass through the loop body can end, as equations.\<close>

lemma receiveLoop_done:
  "\<not> int (length messages) < maxMsgs \<Longrightarrow>
     receiveLoop send client queueUrl options maxMsgs seen messages reqs w =
       (Inr messages, reqs, w)"
  by (simp add: receiveLoop.simps)

lemma receiveLoop_rejected:
  "int (length messages) < maxMsgs \<Longrightarrow>
   req = receiveRequest queueUrl options (min 10 (maxMsgs - int (length messages))) \<Longrightarrow>
   send client req w = (Inl err, w1) \<Longrightarrow>
     receiveLoop send client queueUrl options maxMsgs seen messages reqs w =
       (Inl err, reqs @ [req], w1)"
  by (simp add: receiveLoop.simps [of send client queueUrl options maxMsgs seen messages reqs w])

lemma receiveLoop_empty:
  "int (length messages) < maxMsgs \<Longrightarrow>
   req = receiveRequest queueUrl options (min 10 (maxMsgs - int (length messages))) \<Longrightarrow>
   send client req w = (Inr res, w1) \<Longrightarrow>
   (case res of None \<Rightarrow> [] | Some ms \<Rightarrow> ms) = [] \<Longrightarrow>
     receiveLoop send client queueUrl options maxMsgs seen messages reqs w =
       (Inr messages, reqs @ [req], w1)"
  by (simp add: receiveLoop.simps [of send client queueUrl options maxMsgs seen messages reqs w])

lemma receiveLoop_batch:
  "int (length messages) < maxMsgs \<Longrightarrow>
   req = receiveRequest queueUrl options (min 10 (maxMsgs - int (length messages))) \<Longrightarrow>
   send client req w = (Inr res, w1) \<Longrightarrow>
   (case res of None \<Rightarrow> [] | Some ms \<Rightarrow> ms) = batch \<Longrightarrow> batch \<noteq> [] \<Longrightarrow>
   dedupBatch batch (seen, messages, 0) = (seen', messages', n') \<Longrightarrow>
     receiveLoop send client queueUrl options maxMsgs seen messages reqs w =
       (if n' = 0 then (Inr messages', reqs @ [req], w1)
        else receiveLoop send client queueUrl options maxMsgs seen' messages' (reqs @ [req]) w1)"
  by (simp add: receiveLoop.simps [of send client queueUrl options maxMsgs seen messages reqs w])



text \<open>
  The loop invariant: the keys of the collected messages are pairwise different and are
  exactly the set \<open>seen\<close>, and no more requests have been sent than messages collected.
\<close>

lemma receiveLoop_invariant:
  "receiveLoop send client queueUrl options maxMsgs seen messages reqs w = (res, reqs', w') \<Longrightarrow>
   seen = dedupKey ` set messages \<Longrightarrow> distinct (map dedupKey messages) \<Longrightarrow>
   length reqs \<le> length messages \<Longrightarrow> int (length reqs) \<le> maxMsgs \<Longrightarrow>
     int (length reqs') \<le> maxMsgs \<and> (\<forall>ms. res = Inr ms \<longrightarrow> distinct (map dedupKey ms))"
proof (induction send client queueUrl options maxMsgs seen messages reqs w
       rule: receiveLoop.induct)
  case (1 send client queueUrl options maxMsgs seen messages reqs w)
  show ?case
  proof (cases "int (length messages) < maxMsgs")
    case False
    with "1.prems" show ?thesis by (auto simp: receiveLoop_done)
  next
    case True
    define req where
      "req = receiveRequest queueUrl options (min 10 (maxMsgs - int (length messages)))"
    obtain r1 w1 where r: "send client req w = (r1, w1)"
      by (cases "send client req w")
    from True "1.prems"(4) have more: "int (length (reqs @ [req])) \<le> maxMsgs"
      by simp
    show ?thesis
    proof (cases r1)
      case (Inl err)
      with r receiveLoop_rejected [OF True req_def, of send client w err w1 seen reqs]
      show ?thesis using "1.prems"(1) more by auto
    next
      case (Inr res0)
      define batch where "batch = (case res0 of None \<Rightarrow> [] | Some ms \<Rightarrow> ms)"
      show ?thesis
      proof (cases "batch = []")
        case True
        with r Inr batch_def
          receiveLoop_empty [OF \<open>int (length messages) < maxMsgs\<close> req_def,
            of send client w res0 w1 seen reqs]
        show ?thesis using "1.prems" more by auto
      next
        case False
        obtain seen' messages' n' where
          st: "dedupBatch batch (seen, messages, 0) = (seen', messages', n')"
          by (cases "dedupBatch batch (seen, messages, 0)")
        from dedupBatch_keys [OF st "1.prems"(2,3)]
        have keys: "seen' = dedupKey ` set messages'" "distinct (map dedupKey messages')"
          by simp_all
        from dedupBatch_length [OF st]
        have len: "length messages' = length messages + n'" by simp
        have eq: "receiveLoop send client queueUrl options maxMsgs seen messages reqs w =
            (if n' = 0 then (Inr messages', reqs @ [req], w1)
             else receiveLoop send client queueUrl options maxMsgs seen' messages'
                    (reqs @ [req]) w1)"
          using receiveLoop_batch [OF \<open>int (length messages) < maxMsgs\<close> req_def _ _ False st,
            of send client w res0 w1 reqs] r Inr batch_def
          by simp
        show ?thesis
        proof (cases "n' = 0")
          case True
          with eq "1.prems"(1) keys more show ?thesis by auto
        next
          case n': False
          with eq "1.prems"(1)
          have rec: "receiveLoop send client queueUrl options maxMsgs seen' messages'
                    (reqs @ [req]) w1 = (res, reqs', w')"
            by simp
          have "length (reqs @ [req]) \<le> length messages'"
            using len n' "1.prems"(4) by simp
          with "1.IH" [OF \<open>int (length messages) < maxMsgs\<close> refl req_def [symmetric, THEN sym]
                 refl _ refl _ refl]
          show ?thesis
            using r Inr batch_def False st n' rec keys more by simp
        qed
      qed
    qed
  qed
qed


lemma fitsAlong_batch:
  "int (length messages) < maxMsgs \<Longrightarrow>
   req = receiveRequest queueUrl options (min 10 (maxMsgs - int (length messages))) \<Longrightarrow>
   send client req w = (Inr res, w1) \<Longrightarrow>
   (case res of None \<Rightarrow> [] | Some ms \<Rightarrow> ms) = batch \<Longrightarrow> batch \<noteq> [] \<Longrightarrow>
   dedupBatch batch (seen, messages, 0) = (seen', messages', n') \<Longrightarrow>
     fitsAlong send client queueUrl options maxMsgs seen messages w =
       (int (length batch) \<le> min 10 (maxMsgs - int (length messages)) \<and>
        (n' \<noteq> 0 \<longrightarrow> fitsAlong send client queueUrl options maxMsgs seen' messages' w1))"
  by (auto simp: fitsAlong.simps [of send client queueUrl options maxMsgs seen messages w]
        receiveRequest_def)

lemma receiveLoop_length:
  "receiveLoop send client queueUrl options maxMsgs seen messages reqs w = (Inr ms, reqs', w') \<Longrightarrow>
   fitsAlong send client queueUrl options maxMsgs seen messages w \<Longrightarrow>
   int (length messages) \<le> maxMsgs \<Longrightarrow>
     int (length ms) \<le> maxMsgs"
proof (induction send client queueUrl options maxMsgs seen messages reqs w
       rule: receiveLoop.induct)
  case (1 send client queueUrl options maxMsgs seen messages reqs w)
  show ?case
  proof (cases "int (length messages) < maxMsgs")
    case False
    with "1.prems" show ?thesis by (auto simp: receiveLoop_done)
  next
    case True
    define req where
      "req = receiveRequest queueUrl options (min 10 (maxMsgs - int (length messages)))"
    obtain r1 w1 where r: "send client req w = (r1, w1)"
      by (cases "send client req w")
    show ?thesis
    proof (cases r1)
      case (Inl err)
      with r receiveLoop_rejected [OF True req_def, of send client w err w1 seen reqs]
      show ?thesis using "1.prems"(1) by auto
    next
      case (Inr res0)
      define batch where "batch = (case res0 of None \<Rightarrow> [] | Some ms \<Rightarrow> ms)"
      show ?thesis
      proof (cases "batch = []")
        case True
        with r Inr batch_def
          receiveLoop_empty [OF \<open>int (length messages) < maxMsgs\<close> req_def,
            of send client w res0 w1 seen reqs]
        show ?thesis using "1.prems" by auto
      next
        case False
        obtain seen' messages' n' where
          st: "dedupBatch batch (seen, messages, 0) = (seen', messages', n')"
          by (cases "dedupBatch batch (seen, messages, 0)")
        have fits: "int (length batch) \<le> min 10 (maxMsgs - int (length messages))"
          "n' \<noteq> 0 \<longrightarrow> fitsAlong send client queueUrl options maxMsgs seen' messages' w1"
          using fitsAlong_batch [OF \<open>int (length messages) < maxMsgs\<close> req_def _ _ False st,
            of send client w res0 w1] r Inr batch_def "1.prems"(2)
          by simp_all
        from dedupBatch_length [OF st] dedupBatch_new_le [OF st]
        have "length messages' \<le> length messages + length batch" by simp
        with fits(1) have len: "int (length messages') \<le> maxMsgs" by simp
        have eq: "receiveLoop send client queueUrl options maxMsgs seen messages reqs w =
            (if n' = 0 then (Inr messages', reqs @ [req], w1)
             else receiveLoop send client queueUrl options maxMsgs seen' messages'
                    (reqs @ [req]) w1)"
          using receiveLoop_batch [OF \<open>int (length messages) < maxMsgs\<close> req_def _ _ False st,
            of send client w res0 w1 reqs] r Inr batch_def
          by simp
        show ?thesis
        proof (cases "n' = 0")
          case True
          with eq "1.prems"(1) len show ?thesis by auto
        next
          case n': False
          with eq "1.prems"(1)
          have rec: "receiveLoop send client queueUrl options maxMsgs seen' messages'
                    (reqs @ [req]) w1 = (Inr ms, reqs', w')"
            by simp
          with "1.IH" [OF \<open>int (length messages) < maxMsgs\<close> refl req_def [symmetric, THEN sym]
                 refl _ refl _ refl]
          show ?thesis
            using r Inr batch_def False st n' fits(2) len by simp
        qed
      qed
    qed
  qed
qed

lemma distinct_same_key:
  "distinct (map f xs) \<Longrightarrow> \<forall>x \<in> set xs. f x = c \<Longrightarrow> length xs \<le> 1"
proof (cases xs)
  case Nil
  then show ?thesis by simp
next
  case (Cons a ys)
  assume d: "distinct (map f xs)" and c: "\<forall>x \<in> set xs. f x = c"
  show ?thesis
  proof (cases ys)
    case Nil
    with Cons show ?thesis by simp
  next
    case (Cons b zs)
    with \<open>xs = a # ys\<close> c have "f a = f b" by simp
    with Cons \<open>xs = a # ys\<close> d show ?thesis by simp
  qed
qed

lemma receiveDeduplicated_keys:
  assumes "receiveDeduplicated send client queueUrl options w = (Inr ms, reqs, w')"
  shows "distinct (map dedupKey ms)"
proof -
  have "1 \<le> clampMaxMessages (maxMessages options)"
    by (simp add: clampMaxMessages_def)
  with receiveLoop_invariant [OF assms [unfolded receiveDeduplicated_def]]
  show ?thesis by simp
qed

lemmas example_defs =
  receiveDeduplicated_def receiveLoop.simps clampMaxMessages_def receiveRequest_def
  dedupKey_def exampleMessage_def exampleOptions_def mockSend_def
  responsesFit_def fitsAlong.simps

text \<open>
  C3. Whatever the provider answers, a list that \<open>receiveDeduplicated\<close>
  returns has no two entries with the same deduplication key, hence no two with the same
  message id. Its length stays within the clamp of \<open>maxMessages\<close> into 1..5000 when
  no response that the call receives holds more messages than its request's
  \<open>MaxNumberOfMessages\<close>.
\<close>

theorem receiveDeduplicated_distinct_bounded:
  assumes "receiveDeduplicated send client queueUrl options w = (Inr ms, reqs, w')"
  shows "distinct (map dedupKey ms) \<and> distinct (map MessageId ms) \<and>
         1 \<le> clampMaxMessages (maxMessages options) \<and>
         clampMaxMessages (maxMessages options) \<le> 5000 \<and>
         (responsesFit send client queueUrl options w \<longrightarrow>
            int (length ms) \<le> clampMaxMessages (maxMessages options))"
proof -
  have keys: "distinct (map dedupKey ms)"
    by (rule receiveDeduplicated_keys [OF assms])
  have "map dedupKey ms = map (\<lambda>i. case i of None \<Rightarrow> [] | Some k \<Rightarrow> k) (map MessageId ms)"
    by (simp add: dedupKey_def)
  with keys have ids: "distinct (map MessageId ms)"
    by (metis distinct_map)
  have clamp: "1 \<le> clampMaxMessages (maxMessages options)"
    "clampMaxMessages (maxMessages options) \<le> 5000"
    by (simp_all add: clampMaxMessages_def)
  have "int (length ms) \<le> clampMaxMessages (maxMessages options)"
    if "responsesFit send client queueUrl options w"
    using receiveLoop_length [OF assms [unfolded receiveDeduplicated_def]
            that [unfolded responsesFit_def]] clamp
    by simp
  with keys ids clamp show ?thesis by blast
qed

theorem receiveDeduplicated_distinct_bounded_witness:
  "receiveDeduplicated mockSend exampleClient ''dlq'' (exampleOptions 3)
       [Inr (Some [exampleMessage ''m1'', exampleMessage ''m2'']),
        Inr (Some [exampleMessage ''m1''])]
     = (Inr [exampleMessage ''m1'', exampleMessage ''m2''],
        [receiveRequest ''dlq'' (exampleOptions 3) 3,
         receiveRequest ''dlq'' (exampleOptions 3) 1], [])
   \<and> responsesFit mockSend exampleClient ''dlq'' (exampleOptions 3)
       [Inr (Some [exampleMessage ''m1'', exampleMessage ''m2'']),
        Inr (Some [exampleMessage ''m1''])]
   \<and> distinct (map MessageId [exampleMessage ''m1'', exampleMessage ''m2''])
   \<and> int (length [exampleMessage ''m1'', exampleMessage ''m2'']) \<le> clampMaxMessages 3"
proof -
  have run: "receiveDeduplicated mockSend exampleClient ''dlq'' (exampleOptions 3)
       [Inr (Some [exampleMessage ''m1'', exampleMessage ''m2'']),
        Inr (Some [exampleMessage ''m1''])]
     = (Inr [exampleMessage ''m1'', exampleMessage ''m2''],
        [receiveRequest ''dlq'' (exampleOptions 3) 3,
         receiveRequest ''dlq'' (exampleOptions 3) 1], [])"
    by (simp add: example_defs)
  have fit: "responsesFit mockSend exampleClient ''dlq'' (exampleOptions 3)
       [Inr (Some [exampleMessage ''m1'', exampleMessage ''m2'']),
        Inr (Some [exampleMessage ''m1''])]"
    by (simp add: example_defs)
  from receiveDeduplicated_distinct_bounded [OF run] fit run
  show ?thesis by (simp add: exampleOptions_def)
qed

text \<open>
  The length bound does not hold for every provider: asked for one message, a provider
  that answers with two different ones makes the result two long.
\<close>

theorem receiveDeduplicated_length_counterexample:
  "\<not> (\<forall>send client queueUrl options (w :: (js_error + Message list option) list) ms reqs w'.
        receiveDeduplicated send client queueUrl options w = (Inr ms, reqs, w') \<longrightarrow>
        distinct (map MessageId ms) \<and>
        int (length ms) \<le> clampMaxMessages (maxMessages options))"
proof
  assume bound: "\<forall>send client queueUrl options (w :: (js_error + Message list option) list)
        ms reqs w'.
        receiveDeduplicated send client queueUrl options w = (Inr ms, reqs, w') \<longrightarrow>
        distinct (map MessageId ms) \<and>
        int (length ms) \<le> clampMaxMessages (maxMessages options)"
  have run: "receiveDeduplicated mockSend exampleClient ''dlq'' (exampleOptions 1)
       [Inr (Some [exampleMessage ''m1'', exampleMessage ''m2''])]
     = (Inr [exampleMessage ''m1'', exampleMessage ''m2''],
        [receiveRequest ''dlq'' (exampleOptions 1) 1], [])"
    by (simp add: example_defs)
  from bound run
  have "int (length [exampleMessage ''m1'', exampleMessage ''m2''])
          \<le> clampMaxMessages (maxMessages (exampleOptions 1))"
    by blast
  then show False
    by (simp add: clampMaxMessages_def exampleOptions_def)
qed



text \<open>
  C9. A message without \<open>MessageId\<close> is deduplicated under the key \<open>""\<close>, so a
  returned list holds at most one message without an id (indeed at most one whose key is
  \<open>""\<close>); every later one is skipped by the inner loop like any duplicate.
\<close>

theorem receiveDeduplicated_idless_once:
  assumes "receiveDeduplicated send client queueUrl options w = (Inr ms, reqs, w')"
  shows "length (filter (\<lambda>m. MessageId m = None) ms) \<le> 1 \<and>
         length (filter (\<lambda>m. dedupKey m = []) ms) \<le> 1 \<and>
         (\<forall>m. MessageId m = None \<longrightarrow> dedupKey m = [] \<and>
            (\<forall>seen messages n batch. [] \<in> seen \<longrightarrow>
               dedupBatch (m # batch) (seen, messages, n) = dedupBatch batch (seen, messages, n)))"
proof -
  have keys: "distinct (map dedupKey ms)"
    by (rule receiveDeduplicated_keys [OF assms])
  have "distinct (map dedupKey (filter (\<lambda>m. MessageId m = None) ms))"
    using keys by (rule distinct_map_filter)
  moreover have "\<forall>m \<in> set (filter (\<lambda>m. MessageId m = None) ms). dedupKey m = []"
    by (simp add: dedupKey_def)
  ultimately have a: "length (filter (\<lambda>m. MessageId m = None) ms) \<le> 1"
    by (rule distinct_same_key)
  have "distinct (map dedupKey (filter (\<lambda>m. dedupKey m = []) ms))"
    using keys by (rule distinct_map_filter)
  moreover have "\<forall>m \<in> set (filter (\<lambda>m. dedupKey m = []) ms). dedupKey m = []"
    by simp
  ultimately have b: "length (filter (\<lambda>m. dedupKey m = []) ms) \<le> 1"
    by (rule distinct_same_key)
  from a b show ?thesis by (simp add: dedupKey_def)
qed

theorem receiveDeduplicated_idless_once_witness:
  "receiveDeduplicated mockSend exampleClient ''dlq'' (exampleOptions 10)
       [Inr (Some [\<lparr>MessageId = None, ReceiptHandle = Some ''rh1'', Body = Some ''one''\<rparr>,
                   exampleMessage ''m2'',
                   \<lparr>MessageId = None, ReceiptHandle = Some ''rh3'', Body = Some ''three''\<rparr>])]
     = (Inr [\<lparr>MessageId = None, ReceiptHandle = Some ''rh1'', Body = Some ''one''\<rparr>,
             exampleMessage ''m2''],
        [receiveRequest ''dlq'' (exampleOptions 10) 10,
         receiveRequest ''dlq'' (exampleOptions 10) 8], [])
   \<and> length (filter (\<lambda>m. MessageId m = None)
        [\<lparr>MessageId = None, ReceiptHandle = Some ''rh1'', Body = Some ''one''\<rparr>,
         exampleMessage ''m2'']) \<le> 1"
proof -
  have run: "receiveDeduplicated mockSend exampleClient ''dlq'' (exampleOptions 10)
       [Inr (Some [\<lparr>MessageId = None, ReceiptHandle = Some ''rh1'', Body = Some ''one''\<rparr>,
                   exampleMessage ''m2'',
                   \<lparr>MessageId = None, ReceiptHandle = Some ''rh3'', Body = Some ''three''\<rparr>])]
     = (Inr [\<lparr>MessageId = None, ReceiptHandle = Some ''rh1'', Body = Some ''one''\<rparr>,
             exampleMessage ''m2''],
        [receiveRequest ''dlq'' (exampleOptions 10) 10,
         receiveRequest ''dlq'' (exampleOptions 10) 8], [])"
    by (simp add: example_defs)
  from receiveDeduplicated_idless_once [OF run] run
  show ?thesis by simp
qed


section \<open>Properties of the redrive\<close>

lemma redriveBatch_counts:
  assumes "redriveBatch api client dlqUrl targetUrl messages deleteAfterSend i acc calls w =
             (Inr acc', calls', w')"
  shows "sent acc' + sendFailed acc' =
           sent acc + sendFailed acc + int (length (take 10 (drop i messages)))"
    and "sent acc \<le> sent acc'"
    and "(deleted acc' + deleteFailed acc') - (deleted acc + deleteFailed acc)
           \<le> sent acc' - sent acc"
    and "\<not> deleteAfterSend \<Longrightarrow> deleted acc' = deleted acc \<and> deleteFailed acc' = deleteFailed acc"
  using assms
  by (auto simp: redriveBatch_def Let_def split: sum.splits if_splits)

lemma batch_remaining:
  "i < length messages \<Longrightarrow>
     int (length (take 10 (drop i messages))) + int (length messages - (i + 10)) =
     int (length messages - i)"
  by auto

lemma redriveLoop_counts:
  "redriveLoop api client dlqUrl targetUrl messages deleteAfterSend i acc calls w =
     (Inr s, calls', w') \<Longrightarrow>
   sent s + sendFailed s = sent acc + sendFailed acc + int (length messages - i) \<and>
   sent acc \<le> sent s \<and>
   (deleted s + deleteFailed s) - (deleted acc + deleteFailed acc) \<le> sent s - sent acc \<and>
   (\<not> deleteAfterSend \<longrightarrow> deleted s = deleted acc \<and> deleteFailed s = deleteFailed acc)"
proof (induction api client dlqUrl targetUrl messages deleteAfterSend i acc calls w
       rule: redriveLoop.induct)
  case (1 api client dlqUrl targetUrl messages deleteAfterSend i acc calls w)
  show ?case
  proof (cases "i < length messages")
    case False
    with "1.prems" show ?thesis
      by (auto simp: redriveLoop.simps [of api client dlqUrl targetUrl messages deleteAfterSend i])
  next
    case True
    obtain r calls1 w1 where
      b: "redriveBatch api client dlqUrl targetUrl messages deleteAfterSend i acc calls w =
            (r, calls1, w1)"
      by (cases "redriveBatch api client dlqUrl targetUrl messages deleteAfterSend i acc calls w")
    show ?thesis
    proof (cases r)
      case (Inl err)
      with True b "1.prems" show ?thesis
        by (simp add: redriveLoop.simps [of api client dlqUrl targetUrl messages deleteAfterSend i])
    next
      case (Inr acc1)
      with True b "1.prems"
      have rec: "redriveLoop api client dlqUrl targetUrl messages deleteAfterSend (i + 10)
                   acc1 calls1 w1 = (Inr s, calls', w')"
        by (simp add: redriveLoop.simps [of api client dlqUrl targetUrl messages deleteAfterSend i])
      from "1.IH" [OF True refl, of acc1] b Inr rec
      have ih: "sent s + sendFailed s = sent acc1 + sendFailed acc1 + int (length messages - (i + 10))"
        "sent acc1 \<le> sent s"
        "(deleted s + deleteFailed s) - (deleted acc1 + deleteFailed acc1) \<le> sent s - sent acc1"
        "\<not> deleteAfterSend \<longrightarrow> deleted s = deleted acc1 \<and> deleteFailed s = deleteFailed acc1"
        by simp_all
      note step = redriveBatch_counts [OF b [unfolded Inr]]
      from ih(1) step(1) batch_remaining [OF True]
      have "sent s + sendFailed s = sent acc + sendFailed acc + int (length messages - i)"
        by linarith
      moreover from ih(2) step(2) have "sent acc \<le> sent s" by linarith
      moreover from ih(3) step(3)
      have "(deleted s + deleteFailed s) - (deleted acc + deleteFailed acc) \<le> sent s - sent acc"
        by linarith
      moreover from ih(4) step(4)
      have "\<not> deleteAfterSend \<longrightarrow> deleted s = deleted acc \<and> deleteFailed s = deleteFailed acc"
        by simp
      ultimately show ?thesis by blast
    qed
  qed
qed

lemmas redrive_example_defs =
  redriveMessages_def createSqsClient_def getEnvironment_def getDynamicEnvironments_def
  getSsoSession_def exampleEnvs_def exampleStore_def mockApi_def redriveLoop.simps
  redriveBatch_def Let_def compositeId_def numberToString.simps exampleInput_def

text \<open>
  C1. A summary that \<open>redriveMessages\<close> returns accounts for every input message as
  sent or failed to send, counts no more deletions (succeeded or failed) than messages
  sent, and counts none when \<open>deleteAfterSend\<close> is false - for every provider, that is
  whatever entries the responses report as failed.
\<close>

theorem redriveMessages_summary:
  assumes "redriveMessages api now dynamicEnvs envId region sessionId dlqUrl targetUrl messages
             deleteAfterSend store w = (Inr s, calls, store', w')"
  shows "sent s + sendFailed s = int (length messages) \<and>
         deleted s + deleteFailed s \<le> sent s \<and>
         (\<not> deleteAfterSend \<longrightarrow> deleted s = 0 \<and> deleteFailed s = 0)"
proof -
  obtain c store1 w1 where
    c: "createSqsClient api now dynamicEnvs envId region sessionId store w = (c, store1, w1)"
    by (cases "createSqsClient api now dynamicEnvs envId region sessionId store w")
  show ?thesis
  proof (cases c)
    case (Inl err)
    with assms c show ?thesis by (simp add: redriveMessages_def)
  next
    case (Inr client)
    obtain r calls1 w2 where
      l: "redriveLoop api client dlqUrl targetUrl messages deleteAfterSend 0
            \<lparr>sent = 0, sendFailed = 0, deleted = 0, deleteFailed = 0\<rparr> [] w1 = (r, calls1, w2)"
      by (cases "redriveLoop api client dlqUrl targetUrl messages deleteAfterSend 0
            \<lparr>sent = 0, sendFailed = 0, deleted = 0, deleteFailed = 0\<rparr> [] w1")
    with assms c Inr have "r = Inr s" by (simp add: redriveMessages_def)
    with redriveLoop_counts [OF l [unfolded this]] show ?thesis by simp
  qed
qed

theorem redriveMessages_summary_witness:
  "redriveMessages mockApi 0 exampleEnvs ''env-1'' ''eu-west-1'' ''sess-1'' ''dlq'' ''target''
     [exampleInput ''m0'' ''rh0'', exampleInput ''m1'' ''rh1'', exampleInput ''m2'' ''rh2'']
     True exampleStore
     [Inr (Some [\<lparr>failed_Id = Some ''1-m1''\<rparr>]), Inr (Some [])]
   = (Inr \<lparr>sent = 2, sendFailed = 1, deleted = 2, deleteFailed = 0\<rparr>,
      [SendCall \<lparr>send_QueueUrl = ''target'', send_Entries =
         [\<lparr>send_Id = ''0-m0'', MessageBody = ''{}'', MessageAttributes = None\<rparr>,
          \<lparr>send_Id = ''1-m1'', MessageBody = ''{}'', MessageAttributes = None\<rparr>,
          \<lparr>send_Id = ''2-m2'', MessageBody = ''{}'', MessageAttributes = None\<rparr>]\<rparr>,
       DeleteCall \<lparr>delete_QueueUrl = ''dlq'', delete_Entries =
         [\<lparr>delete_Id = ''0-m0'', delete_ReceiptHandle = ''rh0''\<rparr>,
          \<lparr>delete_Id = ''1-m2'', delete_ReceiptHandle = ''rh2''\<rparr>]\<rparr>],
      exampleStore, [])
   \<and> (2::int) + 1 = int (length
        [exampleInput ''m0'' ''rh0'', exampleInput ''m1'' ''rh1'', exampleInput ''m2'' ''rh2''])
   \<and> (2::int) + 0 \<le> 2"
proof -
  have run: "redriveMessages mockApi 0 exampleEnvs ''env-1'' ''eu-west-1'' ''sess-1'' ''dlq'' ''target''
     [exampleInput ''m0'' ''rh0'', exampleInput ''m1'' ''rh1'', exampleInput ''m2'' ''rh2'']
     True exampleStore
     [Inr (Some [\<lparr>failed_Id = Some ''1-m1''\<rparr>]), Inr (Some [])]
   = (Inr \<lparr>sent = 2, sendFailed = 1, deleted = 2, deleteFailed = 0\<rparr>,
      [SendCall \<lparr>send_QueueUrl = ''target'', send_Entries =
         [\<lparr>send_Id = ''0-m0'', MessageBody = ''{}'', MessageAttributes = None\<rparr>,
          \<lparr>send_Id = ''1-m1'', MessageBody = ''{}'', MessageAttributes = None\<rparr>,
          \<lparr>send_Id = ''2-m2'', MessageBody = ''{}'', MessageAttributes = None\<rparr>]\<rparr>,
       DeleteCall \<lparr>delete_QueueUrl = ''dlq'', delete_Entries =
         [\<lparr>delete_Id = ''0-m0'', delete_ReceiptHandle = ''rh0''\<rparr>,
          \<lparr>delete_Id = ''1-m2'', delete_ReceiptHandle = ''rh2''\<rparr>]\<rparr>],
      exampleStore, [])"
    by (simp add: redrive_example_defs)
  from redriveMessages_summary [OF run] run show ?thesis by simp
qed


text \<open>
  C6. With two messages, the first reported as failed by the send and
  \<open>deleteAfterSend\<close> set, the delete request names the second message \<open>0-m1\<close>:
  the index is its position among the successfully sent messages of the batch, not its
  index \<open>1\<close> in the input, under which the send request named it.
\<close>

theorem redriveMessages_delete_entry_id:
  "fst (snd (redriveMessages mockApi 0 exampleEnvs ''env-1'' ''eu-west-1'' ''sess-1''
       ''dlq'' ''target'' [exampleInput ''m0'' ''rh0'', exampleInput ''m1'' ''rh1'']
       True exampleStore [Inr (Some [\<lparr>failed_Id = Some ''0-m0''\<rparr>]), Inr (Some [])]))
   = [SendCall \<lparr>send_QueueUrl = ''target'', send_Entries =
        [\<lparr>send_Id = ''0-m0'', MessageBody = ''{}'', MessageAttributes = None\<rparr>,
         \<lparr>send_Id = ''1-m1'', MessageBody = ''{}'', MessageAttributes = None\<rparr>]\<rparr>,
      DeleteCall \<lparr>delete_QueueUrl = ''dlq'', delete_Entries =
        [\<lparr>delete_Id = ''0-m1'', delete_ReceiptHandle = ''rh1''\<rparr>]\<rparr>]
   \<and> compositeId 1 (exampleInput ''m1'' ''rh1'') = ''1-m1''"
  by (simp add: redrive_example_defs)

section \<open>Properties of the attribute filter\<close>

text \<open>
  The results already pushed are carried through unchanged; a call on a list is the call
  on its first message followed by the call on the rest, and throws when one of them does.
\<close>

lemma filterLoop_results:
  "filterLoop rt p e x results msgs =
     (case filterLoop rt p e x [] msgs of
        Inl err \<Rightarrow> Inl err
      | Inr out \<Rightarrow> Inr (results @ out))"
proof (induction msgs arbitrary: results x)
  case Nil
  show ?case by simp
next
  case (Cons m ms)
  have push: "filterLoop rt p e y (results @ [entry]) ms =
                (case filterLoop rt p e y [entry] ms of
                   Inl err \<Rightarrow> Inl err
                 | Inr out \<Rightarrow> Inr (results @ out))" for entry y
    using Cons.IH [of y "results @ [entry]"] Cons.IH [of y "[entry]"]
    by (simp split: sum.splits)
  have keep: "filterLoop rt p e y results ms =
                (case filterLoop rt p e y [] ms of
                   Inl err \<Rightarrow> Inl err
                 | Inr out \<Rightarrow> Inr (results @ out))" for y
    by (rule Cons.IH)
  show ?case
    by (simp add: push keep Let_def split: option.split sum.split)
qed

lemma filterByAttributePath_Nil [simp]: "filterByAttributePath rt [] p e x = Inr []"
  by (simp add: filterByAttributePath_def)

lemma filterByAttributePath_Cons:
  "filterByAttributePath rt (m # ms) p e x =
     (case filterByAttributePath rt [m] p e x of
        Inl err \<Rightarrow> Inl err
      | Inr a \<Rightarrow>
          (case filterByAttributePath rt ms p e x of
             Inl err \<Rightarrow> Inl err
           | Inr b \<Rightarrow> Inr (a @ b)))"
proof -
  have push: "filterLoop rt p e y [entry] ms =
                (case filterLoop rt p e y [] ms of
                   Inl err \<Rightarrow> Inl err
                 | Inr out \<Rightarrow> Inr ([entry] @ out))" for entry y
    by (rule filterLoop_results)
  show ?thesis
    unfolding filterByAttributePath_def
    by (simp add: push Let_def split: option.split sum.split)
qed

lemma filterByAttributePath_Cons_Inr:
  assumes "filterByAttributePath rt (m # ms) p e x = Inr out"
  obtains a b where "filterByAttributePath rt [m] p e x = Inr a"
    and "filterByAttributePath rt ms p e x = Inr b" and "out = a @ b"
  using assms filterByAttributePath_Cons [of rt m ms p e x]
  by (auto split: sum.splits)

lemma filterByAttributePath_append:
  "filterByAttributePath rt (xs @ ys) p e x =
     (case filterByAttributePath rt xs p e x of
        Inl err \<Rightarrow> Inl err
      | Inr a \<Rightarrow>
          (case filterByAttributePath rt ys p e x of
             Inl err \<Rightarrow> Inl err
           | Inr b \<Rightarrow> Inr (a @ b)))"
proof (induction xs)
  case Nil
  show ?case by (simp split: sum.split)
next
  case (Cons m ms)
  then show ?case
    using filterByAttributePath_Cons [of rt m "ms @ ys" p e x]
          filterByAttributePath_Cons [of rt m ms p e x]
    by (simp split: sum.split)
qed

text \<open>What the filter does with one message, case by case.\<close>

lemma single_skipped:
  "\<not> truthy (Body m) \<Longrightarrow> filterByAttributePath rt [m] p e x = Inr []"
  by (simp add: filterByAttributePath_def)



lemma single_raw:
  "filterByAttributePath rt [m] p e x = Inr out \<Longrightarrow> r \<in> set out \<Longrightarrow> raw r = m"
  by (auto simp: filterByAttributePath_def Let_def split: if_splits option.splits sum.splits)




lemma filtered_from_single:
  "filterByAttributePath rt msgs p e x = Inr out \<Longrightarrow> r \<in> set out \<Longrightarrow>
     \<exists>m \<in> set msgs. \<exists>one. filterByAttributePath rt [m] p e x = Inr one \<and> r \<in> set one"
proof (induction msgs arbitrary: out)
  case Nil
  then show ?case by simp
next
  case (Cons m ms)
  from Cons.prems(1) obtain a b where
    ab: "filterByAttributePath rt [m] p e x = Inr a"
        "filterByAttributePath rt ms p e x = Inr b" "out = a @ b"
    by (rule filterByAttributePath_Cons_Inr)
  show ?case
  proof (cases "r \<in> set a")
    case True
    with ab(1) show ?thesis by auto
  next
    case False
    with Cons.prems(2) ab(3) have "r \<in> set b" by simp
    from Cons.IH [OF ab(2) this] show ?thesis by auto
  qed
qed






lemmas filter_example_defs =
  filterByAttributePath_def exampleRuntime_def exampleBody_def getByPath_def Let_def
  pathFound_def parseFails_def numberToString.simps typeError_def



lemma filtered_body_truthy:
  assumes "filterByAttributePath rt msgs p e x = Inr out" "r \<in> set out"
  shows "truthy (Body (raw r))"
proof -
  from filtered_from_single [OF assms] obtain m one where
    m: "filterByAttributePath rt [m] p e x = Inr one" "r \<in> set one"
    by blast
  have "truthy (Body m)"
  proof (rule ccontr)
    assume "\<not> truthy (Body m)"
    from single_skipped [OF this, of rt p e x] m show False by simp
  qed
  with single_raw [OF m] show ?thesis by simp
qed

text \<open>
  C10. A message whose \<open>Body\<close> is absent or is the empty string is skipped: the
  call does what it would do without the message, and no entry of any output - so no
  \<open>parseError\<close> entry either - is for such a message.
\<close>

theorem filterByAttributePath_skips_empty_body:
  assumes "Body m = None \<or> Body m = Some []"
  shows "filterByAttributePath rt (pre @ m # post) p e x =
           filterByAttributePath rt (pre @ post) p e x \<and>
         (\<forall>msgs out. filterByAttributePath rt msgs p e x = Inr out \<longrightarrow>
            (\<forall>r \<in> set out. raw r \<noteq> m))"
proof -
  from assms have skip: "\<not> truthy (Body m)" by auto
  have step: "filterByAttributePath rt (m # post) p e x = filterByAttributePath rt post p e x"
    using filterByAttributePath_Cons [of rt m post p e x] single_skipped [OF skip, of rt p e x]
    by (simp split: sum.split)
  have "filterByAttributePath rt (pre @ m # post) p e x =
          filterByAttributePath rt (pre @ post) p e x"
    unfolding filterByAttributePath_append [of rt pre] step by (rule refl)
  moreover have "raw r \<noteq> m"
    if "filterByAttributePath rt msgs p e x = Inr out" "r \<in> set out" for msgs out r
    using filtered_body_truthy [OF that] skip by auto
  ultimately show ?thesis by blast
qed

theorem filterByAttributePath_skips_empty_body_witness:
  "filterByAttributePath exampleRuntime
     [exampleBody (Some ''{}''), exampleBody (Some []), exampleBody None,
      exampleBody (Some ''oops'')] ''a'' ''1'' True
   = filterByAttributePath exampleRuntime
     [exampleBody (Some ''{}''), exampleBody None, exampleBody (Some ''oops'')] ''a'' ''1'' True
   \<and> filterByAttributePath exampleRuntime
     [exampleBody (Some ''{}''), exampleBody (Some []), exampleBody None,
      exampleBody (Some ''oops'')] ''a'' ''1'' True
   = Inr [\<lparr>raw = exampleBody (Some ''{}''), parsedBody = Some (JObject []),
       attributeValue = None, parseError = None\<rparr>,
      \<lparr>raw = exampleBody (Some ''oops''), parsedBody = None, attributeValue = None,
       parseError = Some ''Unexpected token in JSON at position 0''\<rparr>]
   \<and> Body (exampleBody (Some [])) = Some []"
  using filterByAttributePath_skips_empty_body [of "exampleBody (Some [])" exampleRuntime
    "[exampleBody (Some ''{}'')]" "[exampleBody None, exampleBody (Some ''oops'')]" "''a''" "''1''"
    True]
  by (simp add: filter_example_defs)

section \<open>Properties of the device login\<close>

text \<open>
  C5. When the profile is known, the registered client is obtained and the token call
  rejects with an authorization-pending error, \<open>pollForLogin\<close> resolves with
  \<open>{success: false, pending: true}\<close> and leaves the session store as it was.
\<close>

theorem pollForLogin_pending:
  assumes "find (\<lambda>p. profile_name p = profileName) profiles = Some profile"
    and "getRegisteredClient api (profile_ssoRegion profile) registeredClient w = (Inr c, cache, w1)"
    and "createToken api (profile_ssoRegion profile)
           \<lparr>ct_clientId = clientId c, ct_clientSecret = clientSecret c,
            ct_deviceCode = deviceCode,
            ct_grantType = ''urn:ietf:params:oauth:grant-type:device_code''\<rparr> w1 = (Inl err, w2)"
    and "err_name err = Some ''AuthorizationPendingException'' \<or>
         err_error err = Some ''authorization_pending''"
  shows "pollForLogin api profiles now profileName deviceCode sessionId registeredClient store w =
           (Inr \<lparr>success = False, pending = Some True\<rparr>, cache, store, w2)"
  using assms by (simp add: pollForLogin_def isPending_def)

lemmas login_example_defs =
  pollForLogin_def getRegisteredClient_def isPending_def mockOidc_def exampleProfile_def
  pendingError_def setSsoSession_def Let_def

theorem pollForLogin_pending_witness:
  "pollForLogin mockOidc [exampleProfile ''dev'' ''eu-west-1''] 1000 ''dev'' ''device-code''
     ''sess-1'' None exampleStore
     \<lparr>registrations = [], tokenRequests = [], tokenOutcome = Inl pendingError\<rparr>
   = (Inr \<lparr>success = False, pending = Some True\<rparr>,
      Some \<lparr>clientId = ''client-eu-west-1'', clientSecret = ''secret-eu-west-1''\<rparr>,
      exampleStore,
      \<lparr>registrations = [''eu-west-1''],
       tokenRequests = [(''eu-west-1'',
          \<lparr>ct_clientId = ''client-eu-west-1'', ct_clientSecret = ''secret-eu-west-1'',
           ct_deviceCode = ''device-code'',
           ct_grantType = ''urn:ietf:params:oauth:grant-type:device_code''\<rparr>)],
       tokenOutcome = Inl pendingError\<rparr>)"
  by (rule pollForLogin_pending
        [where profile = "exampleProfile ''dev'' ''eu-west-1''" and err = pendingError
           and c = "\<lparr>clientId = ''client-eu-west-1'', clientSecret = ''secret-eu-west-1''\<rparr>"
           and ?w1.0 = "\<lparr>registrations = [''eu-west-1''], tokenRequests = [],
                         tokenOutcome = Inl pendingError\<rparr>"])
     (simp_all add: login_example_defs)

text \<open>
  C7. Once a client is cached, \<open>getRegisteredClient\<close> returns it for every region
  without a request to the provider. So after a login poll for a profile in
  \<open>us-east-1\<close>, a poll for a profile in \<open>eu-west-1\<close> registers nothing there and
  sends its token request to \<open>eu-west-1\<close> with the client registered in
  \<open>us-east-1\<close>.
\<close>

theorem getRegisteredClient_shared_across_regions:
  "(\<forall>region. getRegisteredClient api region (Some cached) w = (Inr cached, Some cached, w))
   \<and> (let profiles = [exampleProfile ''us'' ''us-east-1'', exampleProfile ''eu'' ''eu-west-1''];
          first = pollForLogin mockOidc profiles 1000 ''us'' ''code-1'' ''sess-1'' None
                    exampleStore
                    \<lparr>registrations = [], tokenRequests = [], tokenOutcome = Inl pendingError\<rparr>;
          second = pollForLogin mockOidc profiles 2000 ''eu'' ''code-2'' ''sess-2''
                     (fst (snd first)) (fst (snd (snd first))) (snd (snd (snd first)))
      in fst (snd second) =
           Some \<lparr>clientId = ''client-us-east-1'', clientSecret = ''secret-us-east-1''\<rparr>
         \<and> registrations (snd (snd (snd second))) = [''us-east-1'']
         \<and> tokenRequests (snd (snd (snd second))) =
             [(''us-east-1'',
               \<lparr>ct_clientId = ''client-us-east-1'', ct_clientSecret = ''secret-us-east-1'',
                ct_deviceCode = ''code-1'',
                ct_grantType = ''urn:ietf:params:oauth:grant-type:device_code''\<rparr>),
              (''eu-west-1'',
               \<lparr>ct_clientId = ''client-us-east-1'', ct_clientSecret = ''secret-us-east-1'',
                ct_deviceCode = ''code-2'',
                ct_grantType = ''urn:ietf:params:oauth:grant-type:device_code''\<rparr>)])"
  by (simp add: login_example_defs)


theorem getRegisteredClient_shared_across_regions_witness:
  "getRegisteredClient mockOidc ''eu-west-1''
     (Some \<lparr>clientId = ''client-us-east-1'', clientSecret = ''secret-us-east-1''\<rparr>)
     \<lparr>registrations = [''us-east-1''], tokenRequests = [], tokenOutcome = Inl pendingError\<rparr>
   = (Inr \<lparr>clientId = ''client-us-east-1'', clientSecret = ''secret-us-east-1''\<rparr>,
      Some \<lparr>clientId = ''client-us-east-1'', clientSecret = ''secret-us-east-1''\<rparr>,
      \<lparr>registrations = [''us-east-1''], tokenRequests = [], tokenOutcome = Inl pendingError\<rparr>)"
  using getRegisteredClient_shared_across_regions
    [of mockOidc "\<lparr>clientId = ''client-us-east-1'', clientSecret = ''secret-us-east-1''\<rparr>"
        "\<lparr>registrations = [''us-east-1''], tokenRequests = [],
          tokenOutcome = Inl pendingError\<rparr>"]
  by blast

end
